theory Spec2Isabelle
  imports Main "HOL-Library.Word"
begin

section \<open>JavaScript strings\<close>

text \<open>
  A JavaScript string is a sequence of UTF-16 code units. The component compares strings
  with \<^verbatim>\<open>===\<close>, tests them for truthiness (the empty string is falsy) and trims
  the input, so a list of 16-bit words with list equality is the whole model.
  \<open>js\<close> turns an ASCII literal of the source into such a string.
\<close>

type_synonym code_unit = "16 word"
type_synonym jstring = "code_unit list"

definition js :: "string \<Rightarrow> jstring" where
  "js s = map (\<lambda>c. of_nat (of_char c)) s"

text \<open>
  \<^verbatim>\<open>String.prototype.trim\<close> removes WhiteSpace and LineTerminator code points from
  both ends: TAB, LF, VT, FF, CR, SP, NBSP, the Unicode space separators, LS, PS and the
  byte order mark. All of them are single code units.
\<close>

definition isWhiteSpace :: "code_unit \<Rightarrow> bool" where
  "isWhiteSpace c \<longleftrightarrow>
     c = 0x09 \<or> c = 0x0A \<or> c = 0x0B \<or> c = 0x0C \<or> c = 0x0D \<or> c = 0x20 \<or> c = 0xA0 \<or>
     c = 0x1680 \<or> (0x2000 \<le> c \<and> c \<le> 0x200A) \<or> c = 0x2028 \<or> c = 0x2029 \<or>
     c = 0x202F \<or> c = 0x205F \<or> c = 0x3000 \<or> c = 0xFEFF"

definition trim :: "jstring \<Rightarrow> jstring" where
  "trim s = rev (dropWhile isWhiteSpace (rev (dropWhile isWhiteSpace s)))"

text \<open>Truthiness of a string, and of a \<^verbatim>\<open>string | null\<close> (or an optional field).\<close>

definition truthy :: "jstring \<Rightarrow> bool" where
  "truthy s \<longleftrightarrow> s \<noteq> []"

definition truthy_opt :: "jstring option \<Rightarrow> bool" where
  "truthy_opt v = (case v of None \<Rightarrow> False | Some s \<Rightarrow> truthy s)"


section \<open>Data of \<^verbatim>\<open>Chat.tsx\<close>\<close>

datatype role = Assistant | User

record source =
  link :: jstring
  source :: jstring

text \<open>\<open>sources = None\<close> is a message object without the \<^verbatim>\<open>sources\<close> property.\<close>

record message =
  role :: role
  content :: jstring
  sources :: "source list option"

record history_item =
  id' :: jstring
  date :: jstring

definition initialAssistantMessage :: message where
  "initialAssistantMessage =
     \<lparr>role = Assistant,
      content = js ''Hello! I am your news assistant. Ask me anything about the latest news.'',
      sources = None\<rparr>"

text \<open>
  The body the chat service answers with, as the source types it. \<open>None\<close> is a
  property that is missing (or \<^verbatim>\<open>null\<close>, which the code treats alike).
\<close>

record chat_response =
  answer :: "jstring option"
  response_sources :: "source list option"

text \<open>
  An awaited remote call either rejects (\<^verbatim>\<open>fetch\<close> or \<^verbatim>\<open>res.json()\<close> throws) or
  resolves with the parsed body.
\<close>

datatype 'a reply = Rejected | Resolved 'a

text \<open>The network calls the component issues.\<close>

datatype request =
    PostSession
  | GetHistory jstring
  | DeleteSession jstring
  | PostChat "jstring option" jstring


section \<open>The component's state and its surroundings\<close>

text \<open>
  The five \<^verbatim>\<open>useState\<close> cells, the browser's \<^verbatim>\<open>localStorage\<close>, and a log of
  what the component did to the outside: the requests it sent, the alerts it showed and
  the lines it wrote with \<^verbatim>\<open>console.error\<close>.
\<close>

record world =
  sessionId :: "jstring option"
  messages :: "message list"
  input :: jstring
  isLoading :: bool
  historyList :: "history_item list"
  localStorage :: "jstring \<rightharpoonup> jstring"
  requests :: "request list"
  alerts :: "jstring list"
  console :: "jstring list"

definition fetch :: "request \<Rightarrow> world \<Rightarrow> world" where
  "fetch r w = w\<lparr>requests := requests w @ [r]\<rparr>"

definition console_error :: "jstring \<Rightarrow> world \<Rightarrow> world" where
  "console_error l w = w\<lparr>console := console w @ [l]\<rparr>"

definition alert :: "jstring \<Rightarrow> world \<Rightarrow> world" where
  "alert t w = w\<lparr>alerts := alerts w @ [t]\<rparr>"

definition setItem :: "jstring \<Rightarrow> jstring \<Rightarrow> world \<Rightarrow> world" where
  "setItem k v w = w\<lparr>localStorage := (localStorage w)(k \<mapsto> v)\<rparr>"

definition removeItem :: "jstring \<Rightarrow> world \<Rightarrow> world" where
  "removeItem k w = w\<lparr>localStorage := (localStorage w)(k := None)\<rparr>"

definition KEY_SESSION :: jstring where
  "KEY_SESSION = js ''chat_session_id''"

definition KEY_HISTORY :: jstring where
  "KEY_HISTORY = js ''chat_history_list''"


section \<open>\<^verbatim>\<open>sendMessage\<close>\<close>

text \<open>
  An \<^verbatim>\<open>async\<close> handler runs up to its \<^verbatim>\<open>await\<close> when the event arrives and
  the rest when the call settles; other handlers may run in between. Each handler is
  therefore two functions, \<open>_begin\<close> and \<open>_resolve\<close>. State written with an updater
  (\<^verbatim>\<open>setMessages(prev => ...)\<close>) reads the state at that moment; a plain variable of the
  closure reads the state of the render in which the handler was created, and is passed
  to \<open>_resolve\<close> as an argument where the source uses one after the \<^verbatim>\<open>await\<close>.
\<close>

text \<open>
  \<open>c\<close> is the state of the render whose closure the handler runs in: the guard, the
  user's message and the body of the request read \<^verbatim>\<open>input\<close>, \<^verbatim>\<open>isLoading\<close> and
  \<^verbatim>\<open>sessionId\<close> there. \<open>w\<close> is the state the updates are applied to.
\<close>

definition sendMessage_begin_in :: "world \<Rightarrow> world \<Rightarrow> world" where
  "sendMessage_begin_in c w =
     (if \<not> truthy (trim (input c)) \<or> isLoading c then w
      else
        let userMessage = \<lparr>role = User, content = input c, sources = None\<rparr>;
            w1 = w\<lparr>messages := messages w @ [userMessage]\<rparr>;
            w2 = w1\<lparr>input := []\<rparr>;
            w3 = w2\<lparr>isLoading := True\<rparr>
        in fetch (PostChat (sessionId c) (input c)) w3)"

text \<open>The handler of the latest render: its closure holds the state itself.\<close>

definition sendMessage_begin :: "world \<Rightarrow> world" where
  "sendMessage_begin w = sendMessage_begin_in w w"

definition answer_or_default :: "chat_response \<Rightarrow> jstring" where
  "answer_or_default d =
     (case answer d of
        None \<Rightarrow> js ''No response received.''
      | Some a \<Rightarrow> if truthy a then a else js ''No response received.'')"

definition assistantReply :: "chat_response \<Rightarrow> message" where
  "assistantReply d =
     (case response_sources d of
        Some srcs \<Rightarrow> \<lparr>role = Assistant, content = answer_or_default d, sources = Some srcs\<rparr>
      | None \<Rightarrow> \<lparr>role = Assistant, content = answer_or_default d, sources = None\<rparr>)"

definition errorMessage :: message where
  "errorMessage =
     \<lparr>role = Assistant, content = js ''Sorry, something went wrong. Please try again.'',
      sources = None\<rparr>"

definition sendMessage_resolve :: "chat_response reply \<Rightarrow> world \<Rightarrow> world" where
  "sendMessage_resolve r w =
     (let w1 = (case r of
                  Resolved d \<Rightarrow> w\<lparr>messages := messages w @ [assistantReply d]\<rparr>
                | Rejected \<Rightarrow>
                    (let w' = console_error (js ''Error sending message:'') w
                     in w'\<lparr>messages := messages w' @ [errorMessage]\<rparr>))
      in w1\<lparr>isLoading := False\<rparr>)"

text \<open>
  Whether a call of \<open>sendMessage_begin\<close> got past the guard and left a request to
  settle.
\<close>

definition send_accepted :: "world \<Rightarrow> bool" where
  "send_accepted w \<longleftrightarrow> truthy (trim (input w)) \<and> \<not> isLoading w"

text \<open>A send that settles before anything else happens.\<close>

definition sendMessage :: "chat_response reply \<Rightarrow> world \<Rightarrow> world" where
  "sendMessage r w =
     (if send_accepted w then sendMessage_resolve r (sendMessage_begin w)
      else sendMessage_begin w)"


section \<open>\<^verbatim>\<open>JSON.stringify\<close> of the session list\<close>

text \<open>
  \<^verbatim>\<open>QuoteJSONString\<close>: the quote, the backslash and the control characters are
  escaped, a surrogate that is not half of a pair is written as \<^verbatim>\<open>\uXXXX\<close> with
  lower-case digits, every other code unit stands for itself.
\<close>

definition isLeadingSurrogate :: "code_unit \<Rightarrow> bool" where
  "isLeadingSurrogate c \<longleftrightarrow> 0xD800 \<le> c \<and> c \<le> 0xDBFF"

definition isTrailingSurrogate :: "code_unit \<Rightarrow> bool" where
  "isTrailingSurrogate c \<longleftrightarrow> 0xDC00 \<le> c \<and> c \<le> 0xDFFF"

definition hexDigit :: "nat \<Rightarrow> code_unit" where
  "hexDigit d = (if d < 10 then of_nat (48 + d) else of_nat (87 + d))"

definition unicodeEscape :: "code_unit \<Rightarrow> jstring" where
  "unicodeEscape c =
     [0x5C, 0x75,
      hexDigit (unat c div 4096),
      hexDigit (unat c div 256 mod 16),
      hexDigit (unat c div 16 mod 16),
      hexDigit (unat c mod 16)]"

definition quoteUnit :: "code_unit \<Rightarrow> jstring" where
  "quoteUnit c =
     (if c = 0x08 then [0x5C, 0x62]
      else if c = 0x09 then [0x5C, 0x74]
      else if c = 0x0A then [0x5C, 0x6E]
      else if c = 0x0C then [0x5C, 0x66]
      else if c = 0x0D then [0x5C, 0x72]
      else if c = 0x22 then [0x5C, 0x22]
      else if c = 0x5C then [0x5C, 0x5C]
      else if c < 0x20 \<or> isLeadingSurrogate c \<or> isTrailingSurrogate c then unicodeEscape c
      else [c])"

fun quoteBody :: "jstring \<Rightarrow> jstring" where
  "quoteBody [] = []"
| "quoteBody [c] = quoteUnit c"
| "quoteBody (c # d # cs) =
     (if isLeadingSurrogate c \<and> isTrailingSurrogate d then c # d # quoteBody cs
      else quoteUnit c @ quoteBody (d # cs))"

definition quoteJSONString :: "jstring \<Rightarrow> jstring" where
  "quoteJSONString s = [0x22] @ quoteBody s @ [0x22]"

text \<open>
  An item is an object with the properties \<^verbatim>\<open>id\<close> and \<^verbatim>\<open>date\<close>, in the order
  in which \<^verbatim>\<open>createSession\<close> builds it; the array is written without white space.
\<close>

definition stringifyItem :: "history_item \<Rightarrow> jstring" where
  "stringifyItem h =
     js ''{'' @ quoteJSONString (js ''id'') @ js '':'' @ quoteJSONString (id' h) @ js '','' @
     quoteJSONString (js ''date'') @ js '':'' @ quoteJSONString (date h) @ js ''}''"

fun joinComma :: "jstring list \<Rightarrow> jstring" where
  "joinComma [] = []"
| "joinComma [x] = x"
| "joinComma (x # y # ys) = x @ js '','' @ joinComma (y # ys)"

definition stringifyList :: "history_item list \<Rightarrow> jstring" where
  "stringifyList hs = js ''['' @ joinComma (map stringifyItem hs) @ js '']''"


section \<open>\<^verbatim>\<open>JSON.parse\<close>\<close>

text \<open>
  The mount effect reads the session list back with \<^verbatim>\<open>JSON.parse\<close>, which either
  returns a value or throws a \<^verbatim>\<open>SyntaxError\<close>. The function is the platform's; it is
  modelled here as a recogniser of the JSON grammar: a lexer, and a parser that keeps the
  containers still open on a stack. A number keeps the text of its literal.
\<close>

datatype json =
    JNull
  | JBool bool
  | JNumber jstring
  | JString jstring
  | JArray "json list"
  | JObject "(jstring \<times> json) list"

datatype token = LBrace | RBrace | LBracket | RBracket | Colon | Comma | Scalar json

definition isJSONWhiteSpace :: "code_unit \<Rightarrow> bool" where
  "isJSONWhiteSpace c \<longleftrightarrow> c = 0x09 \<or> c = 0x0A \<or> c = 0x0D \<or> c = 0x20"

definition isDigit :: "code_unit \<Rightarrow> bool" where
  "isDigit c \<longleftrightarrow> 0x30 \<le> c \<and> c \<le> 0x39"

definition hexValue :: "code_unit \<Rightarrow> nat option" where
  "hexValue c =
     (if 0x30 \<le> c \<and> c \<le> 0x39 then Some (unat c - 48)
      else if 0x41 \<le> c \<and> c \<le> 0x46 then Some (unat c - 55)
      else if 0x61 \<le> c \<and> c \<le> 0x66 then Some (unat c - 87)
      else None)"

definition hex4 :: "code_unit \<Rightarrow> code_unit \<Rightarrow> code_unit \<Rightarrow> code_unit \<Rightarrow> code_unit option" where
  "hex4 a b c d =
     (case (hexValue a, hexValue b, hexValue c, hexValue d) of
        (Some h3, Some h2, Some h1, Some h0) \<Rightarrow>
          Some (of_nat (4096 * h3 + 256 * h2 + 16 * h1 + h0))
      | _ \<Rightarrow> None)"

definition simpleEscape :: "code_unit \<Rightarrow> code_unit option" where
  "simpleEscape e =
     (if e = 0x22 then Some 0x22
      else if e = 0x5C then Some 0x5C
      else if e = 0x2F then Some 0x2F
      else if e = 0x62 then Some 0x08
      else if e = 0x66 then Some 0x0C
      else if e = 0x6E then Some 0x0A
      else if e = 0x72 then Some 0x0D
      else if e = 0x74 then Some 0x09
      else None)"

definition consChar :: "code_unit \<Rightarrow> (jstring \<times> jstring) option \<Rightarrow> (jstring \<times> jstring) option" where
  "consChar c r = (case r of None \<Rightarrow> None | Some (s, rest) \<Rightarrow> Some (c # s, rest))"

text \<open>
  The characters of a string after its opening quote, up to the closing one: the decoded
  string and the text that follows.
\<close>

fun lexString :: "jstring \<Rightarrow> (jstring \<times> jstring) option" where
  "lexString [] = None"
| "lexString (c # cs) =
     (if c = 0x22 then Some ([], cs)
      else if c = 0x5C then
        (case cs of
           [] \<Rightarrow> None
         | e # cs1 \<Rightarrow>
             (if e = 0x75 then
                (case cs1 of
                   h3 # h2 # h1 # h0 # cs2 \<Rightarrow>
                     (case hex4 h3 h2 h1 h0 of
                        None \<Rightarrow> None
                      | Some u \<Rightarrow> consChar u (lexString cs2))
                 | _ \<Rightarrow> None)
              else
                (case simpleEscape e of
                   None \<Rightarrow> None
                 | Some u \<Rightarrow> consChar u (lexString cs1))))
      else if c < 0x20 then None
      else consChar c (lexString cs))"

definition lexDigits :: "jstring \<Rightarrow> (jstring \<times> jstring) option" where
  "lexDigits cs =
     (if takeWhile isDigit cs = [] then None
      else Some (takeWhile isDigit cs, dropWhile isDigit cs))"

definition lexInt :: "jstring \<Rightarrow> (jstring \<times> jstring) option" where
  "lexInt cs =
     (case lexDigits cs of
        None \<Rightarrow> None
      | Some (ds, rest) \<Rightarrow> if length ds > 1 \<and> hd ds = 0x30 then None else Some (ds, rest))"

definition lexFraction :: "jstring \<Rightarrow> (jstring \<times> jstring) option" where
  "lexFraction cs =
     (case cs of
        [] \<Rightarrow> Some ([], [])
      | c # cs1 \<Rightarrow>
          if c = 0x2E then
            (case lexDigits cs1 of None \<Rightarrow> None | Some (ds, rest) \<Rightarrow> Some (c # ds, rest))
          else Some ([], cs))"

definition lexSign :: "jstring \<Rightarrow> jstring \<times> jstring" where
  "lexSign cs =
     (case cs of
        [] \<Rightarrow> ([], [])
      | s # cs1 \<Rightarrow> if s = 0x2B \<or> s = 0x2D then ([s], cs1) else ([], cs))"

definition lexExponent :: "jstring \<Rightarrow> (jstring \<times> jstring) option" where
  "lexExponent cs =
     (case cs of
        [] \<Rightarrow> Some ([], [])
      | c # cs1 \<Rightarrow>
          if c = 0x65 \<or> c = 0x45 then
            (case lexDigits (snd (lexSign cs1)) of
               None \<Rightarrow> None
             | Some (ds, rest) \<Rightarrow> Some (c # fst (lexSign cs1) @ ds, rest))
          else Some ([], cs))"

definition lexMinus :: "jstring \<Rightarrow> jstring \<times> jstring" where
  "lexMinus cs =
     (case cs of
        [] \<Rightarrow> ([], [])
      | s # cs1 \<Rightarrow> if s = 0x2D then ([s], cs1) else ([], cs))"

definition lexNumber :: "jstring \<Rightarrow> (jstring \<times> jstring) option" where
  "lexNumber cs =
     (case lexInt (snd (lexMinus cs)) of
        None \<Rightarrow> None
      | Some (i, cs2) \<Rightarrow>
          (case lexFraction cs2 of
             None \<Rightarrow> None
           | Some (f, cs3) \<Rightarrow>
               (case lexExponent cs3 of
                  None \<Rightarrow> None
                | Some (e, cs4) \<Rightarrow> Some (fst (lexMinus cs) @ i @ f @ e, cs4))))"

fun stripPrefix :: "jstring \<Rightarrow> jstring \<Rightarrow> jstring option" where
  "stripPrefix [] s = Some s"
| "stripPrefix (p # ps) [] = None"
| "stripPrefix (p # ps) (c # cs) = (if p = c then stripPrefix ps cs else None)"

definition consToken :: "token \<Rightarrow> token list option \<Rightarrow> token list option" where
  "consToken t r = (case r of None \<Rightarrow> None | Some ts \<Rightarrow> Some (t # ts))"

lemma lexString_shorter: "lexString cs = Some (s, rest) \<Longrightarrow> length rest < Suc (length cs)"
  by (induction cs arbitrary: s rest rule: lexString.induct)
     (fastforce simp: consChar_def split: if_splits list.splits option.splits)+

lemma lexDigits_shorter: "lexDigits cs = Some (s, rest) \<Longrightarrow> length rest \<le> length cs"
  by (auto simp: lexDigits_def split: if_splits intro: length_dropWhile_le)

lemma lexDigits_strictly_shorter: "lexDigits cs = Some (s, rest) \<Longrightarrow> length rest < length cs"
proof -
  assume a: "lexDigits cs = Some (s, rest)"
  then have "takeWhile isDigit cs \<noteq> []" and r: "rest = dropWhile isDigit cs"
    by (auto simp: lexDigits_def split: if_splits)
  moreover have "length (takeWhile isDigit cs) + length (dropWhile isDigit cs) = length cs"
    by (metis length_append takeWhile_dropWhile_id)
  ultimately show ?thesis by (cases "takeWhile isDigit cs") auto
qed

lemma lexNumber_shorter:
  assumes "lexNumber (c # cs) = Some (s, rest)"
  shows "length rest < Suc (length cs)"
proof -
  from assms obtain i cs2 f cs3 e where
    a: "lexInt (snd (lexMinus (c # cs))) = Some (i, cs2)" and
    b: "lexFraction cs2 = Some (f, cs3)" and
    d: "lexExponent cs3 = Some (e, rest)"
    by (auto simp: lexNumber_def split: option.splits)
  have 1: "length (snd (lexMinus (c # cs))) \<le> Suc (length cs)"
    by (simp add: lexMinus_def)
  from a have "lexDigits (snd (lexMinus (c # cs))) = Some (i, cs2)"
    by (auto simp: lexInt_def split: option.splits if_splits)
  then have 2: "length cs2 < length (snd (lexMinus (c # cs)))"
    by (rule lexDigits_strictly_shorter)
  from b have 3: "length cs3 \<le> length cs2"
    by (auto simp: lexFraction_def split: list.splits if_splits option.splits
        dest!: lexDigits_shorter)
  have s: "length (snd (lexSign xs)) \<le> length xs" for xs
    by (simp add: lexSign_def split: list.splits)
  have 4: "length rest \<le> length cs3"
  proof (cases cs3)
    case Nil
    with d show ?thesis by (simp add: lexExponent_def)
  next
    case (Cons x xs)
    show ?thesis
    proof (cases "x = 0x65 \<or> x = 0x45")
      case True
      with d Cons obtain ds where "lexDigits (snd (lexSign xs)) = Some (ds, rest)"
        by (auto simp: lexExponent_def split: option.splits)
      then have "length rest \<le> length (snd (lexSign xs))"
        by (rule lexDigits_shorter)
      with s [of xs] Cons show ?thesis by simp
    next
      case False
      with d Cons show ?thesis by (auto simp: lexExponent_def)
    qed
  qed
  from 1 2 3 4 show ?thesis by linarith
qed

lemma stripPrefix_shorter: "stripPrefix p s = Some rest \<Longrightarrow> length rest \<le> length s"
  by (induction p s rule: stripPrefix.induct) (auto split: if_splits)

function lex :: "jstring \<Rightarrow> token list option" where
  "lex [] = Some []"
| "lex (c # cs) =
     (if isJSONWhiteSpace c then lex cs
      else if c = 0x7B then consToken LBrace (lex cs)
      else if c = 0x7D then consToken RBrace (lex cs)
      else if c = 0x5B then consToken LBracket (lex cs)
      else if c = 0x5D then consToken RBracket (lex cs)
      else if c = 0x3A then consToken Colon (lex cs)
      else if c = 0x2C then consToken Comma (lex cs)
      else if c = 0x22 then
        (case lexString cs of
           None \<Rightarrow> None
         | Some (s, rest) \<Rightarrow> consToken (Scalar (JString s)) (lex rest))
      else if c = 0x2D \<or> isDigit c then
        (case lexNumber (c # cs) of
           None \<Rightarrow> None
         | Some (n, rest) \<Rightarrow> consToken (Scalar (JNumber n)) (lex rest))
      else if c = 0x74 then
        (case stripPrefix (js ''rue'') cs of
           None \<Rightarrow> None
         | Some rest \<Rightarrow> consToken (Scalar (JBool True)) (lex rest))
      else if c = 0x66 then
        (case stripPrefix (js ''alse'') cs of
           None \<Rightarrow> None
         | Some rest \<Rightarrow> consToken (Scalar (JBool False)) (lex rest))
      else if c = 0x6E then
        (case stripPrefix (js ''ull'') cs of
           None \<Rightarrow> None
         | Some rest \<Rightarrow> consToken (Scalar JNull) (lex rest))
      else None)"
  by pat_completeness auto
termination
  by (relation "measure length")
     (auto dest: lexString_shorter lexNumber_shorter stripPrefix_shorter simp: less_Suc_eq_le)

datatype frame =
    InArray "json list"
  | InObject "(jstring \<times> json) list"
  | InKey "(jstring \<times> json) list" jstring

datatype mode = MValue | MValueOrEnd | MKeyOrEnd | MKey | MColon | MAfter | MDone json

fun deliver :: "json \<Rightarrow> frame list \<Rightarrow> (mode \<times> frame list) option" where
  "deliver v [] = Some (MDone v, [])"
| "deliver v (InArray xs # st) = Some (MAfter, InArray (v # xs) # st)"
| "deliver v (InKey kvs k # st) = Some (MAfter, InObject ((k, v) # kvs) # st)"
| "deliver v (InObject kvs # st) = None"

definition openValue :: "frame list \<Rightarrow> token \<Rightarrow> (mode \<times> frame list) option" where
  "openValue st t =
     (case t of
        Scalar v \<Rightarrow> deliver v st
      | LBracket \<Rightarrow> Some (MValueOrEnd, InArray [] # st)
      | LBrace \<Rightarrow> Some (MKeyOrEnd, InObject [] # st)
      | _ \<Rightarrow> None)"

definition closeArray :: "frame list \<Rightarrow> (mode \<times> frame list) option" where
  "closeArray st = (case st of InArray xs # st' \<Rightarrow> deliver (JArray (rev xs)) st' | _ \<Rightarrow> None)"

definition closeObject :: "frame list \<Rightarrow> (mode \<times> frame list) option" where
  "closeObject st = (case st of InObject kvs # st' \<Rightarrow> deliver (JObject (rev kvs)) st' | _ \<Rightarrow> None)"

definition readKey :: "frame list \<Rightarrow> token \<Rightarrow> (mode \<times> frame list) option" where
  "readKey st t =
     (case t of
        Scalar (JString k) \<Rightarrow>
          (case st of InObject kvs # st' \<Rightarrow> Some (MColon, InKey kvs k # st') | _ \<Rightarrow> None)
      | _ \<Rightarrow> None)"

definition afterComma :: "frame list \<Rightarrow> (mode \<times> frame list) option" where
  "afterComma st =
     (case st of
        InArray xs # st' \<Rightarrow> Some (MValue, st)
      | InObject kvs # st' \<Rightarrow> Some (MKey, st)
      | _ \<Rightarrow> None)"

definition pstep :: "mode \<times> frame list \<Rightarrow> token \<Rightarrow> (mode \<times> frame list) option" where
  "pstep p t =
     (case p of (m, st) \<Rightarrow>
       (case m of
          MValue \<Rightarrow> openValue st t
        | MValueOrEnd \<Rightarrow> (case t of RBracket \<Rightarrow> closeArray st | _ \<Rightarrow> openValue st t)
        | MKeyOrEnd \<Rightarrow> (case t of RBrace \<Rightarrow> closeObject st | _ \<Rightarrow> readKey st t)
        | MKey \<Rightarrow> readKey st t
        | MColon \<Rightarrow> (case t of Colon \<Rightarrow> Some (MValue, st) | _ \<Rightarrow> None)
        | MAfter \<Rightarrow>
            (case t of
               Comma \<Rightarrow> afterComma st
             | RBracket \<Rightarrow> closeArray st
             | RBrace \<Rightarrow> closeObject st
             | _ \<Rightarrow> None)
        | MDone v \<Rightarrow> None))"

fun psteps :: "mode \<times> frame list \<Rightarrow> token list \<Rightarrow> (mode \<times> frame list) option" where
  "psteps p [] = Some p"
| "psteps p (t # ts) = (case pstep p t of None \<Rightarrow> None | Some p' \<Rightarrow> psteps p' ts)"

definition parseTokens :: "token list \<Rightarrow> json option" where
  "parseTokens ts =
     (case psteps (MValue, []) ts of
        Some (MDone v, _) \<Rightarrow> Some v
      | _ \<Rightarrow> None)"

definition parseJSON :: "jstring \<Rightarrow> json option" where
  "parseJSON s = (case lex s of None \<Rightarrow> None | Some ts \<Rightarrow> parseTokens ts)"

text \<open>
  What \<^verbatim>\<open>JSON.parse\<close> returns is stored unchecked. It is a \<^verbatim>\<open>HistoryItem[]\<close>, the type
  the source gives it, when it is an array of objects whose \<^verbatim>\<open>id\<close> and \<^verbatim>\<open>date\<close> are
  strings. Of a property written twice \<^verbatim>\<open>JSON.parse\<close> keeps the last value. The typed
  state holds the two properties the type names: the order in which an object lists them
  and what else it holds are not part of it. Any other value is outside the typed state.
\<close>

definition lookupLast :: "jstring \<Rightarrow> (jstring \<times> json) list \<Rightarrow> json option" where
  "lookupLast k kvs = map_of (rev kvs) k"

definition asHistoryItem :: "json \<Rightarrow> history_item option" where
  "asHistoryItem v =
     (case v of
        JObject kvs \<Rightarrow>
          (case (lookupLast (js ''id'') kvs, lookupLast (js ''date'') kvs) of
             (Some (JString i), Some (JString d)) \<Rightarrow> Some \<lparr>id' = i, date = d\<rparr>
           | _ \<Rightarrow> None)
      | _ \<Rightarrow> None)"

definition asHistoryList :: "json \<Rightarrow> history_item list option" where
  "asHistoryList v = (case v of JArray vs \<Rightarrow> those (map asHistoryItem vs) | _ \<Rightarrow> None)"

text \<open>
  The value and the tokens of a stringified item, for the proof that a stored list is
  read back as it was written.
\<close>

definition itemJson :: "history_item \<Rightarrow> json" where
  "itemJson h = JObject [(js ''id'', JString (id' h)), (js ''date'', JString (date h))]"

definition itemTokens :: "history_item \<Rightarrow> token list" where
  "itemTokens h =
     [LBrace, Scalar (JString (js ''id'')), Colon, Scalar (JString (id' h)), Comma,
      Scalar (JString (js ''date'')), Colon, Scalar (JString (date h)), RBrace]"

fun listTokens :: "history_item list \<Rightarrow> token list" where
  "listTokens [] = []"
| "listTokens [h] = itemTokens h"
| "listTokens (h # g # hs) = itemTokens h @ Comma # listTokens (g # hs)"


section \<open>Sessions: create, load, switch, delete, reset\<close>

definition createSession_begin :: "world \<Rightarrow> world" where
  "createSession_begin w = fetch PostSession w"

text \<open>
  \<open>now\<close> is what \<^verbatim>\<open>new Date().toLocaleString()\<close> returns when the call settles. The
  updater of \<^verbatim>\<open>setHistoryList\<close> writes the new list to the store.
\<close>

definition createSession_resolve :: "jstring \<Rightarrow> jstring reply \<Rightarrow> world \<Rightarrow> world" where
  "createSession_resolve now r w =
     (case r of
        Resolved newSessionId \<Rightarrow>
          (let w1 = w\<lparr>sessionId := Some newSessionId\<rparr>;
               w2 = setItem KEY_SESSION newSessionId w1;
               w3 = w2\<lparr>messages := [initialAssistantMessage]\<rparr>;
               newHistoryItem = \<lparr>id' = newSessionId, date = now\<rparr>;
               updatedList = newHistoryItem # historyList w3;
               w4 = setItem KEY_HISTORY (stringifyList updatedList) w3
           in w4\<lparr>historyList := updatedList\<rparr>)
      | Rejected \<Rightarrow> console_error (js ''Error creating session:'') w)"

definition handleNewChat :: "world \<Rightarrow> world" where
  "handleNewChat w = createSession_begin w"

definition fetchHistory_begin :: "jstring \<Rightarrow> world \<Rightarrow> world" where
  "fetchHistory_begin i w = fetch (GetHistory i) w"

text \<open>The body's \<^verbatim>\<open>history\<close> is optional: \<open>None\<close> is a body without it.\<close>

definition fetchHistory_resolve :: "message list option reply \<Rightarrow> world \<Rightarrow> world" where
  "fetchHistory_resolve r w =
     (case r of
        Resolved history \<Rightarrow>
          (case history of
             Some h \<Rightarrow>
               (if length h > 0 then w\<lparr>messages := h\<rparr>
                else w\<lparr>messages := [initialAssistantMessage]\<rparr>)
           | None \<Rightarrow> w\<lparr>messages := [initialAssistantMessage]\<rparr>)
      | Rejected \<Rightarrow> console_error (js ''Error fetching history:'') w)"

definition fetchHistory :: "jstring \<Rightarrow> message list option reply \<Rightarrow> world \<Rightarrow> world" where
  "fetchHistory i r w = fetchHistory_resolve r (fetchHistory_begin i w)"

text \<open>
  \<open>sid\<close> is the \<^verbatim>\<open>sessionId\<close> of the closure: the state's when the handler runs on a
  click, the one captured before the \<^verbatim>\<open>await\<close> when \<^verbatim>\<open>handleDeleteSession\<close>
  calls it.
\<close>

definition handleLoadSession_from :: "jstring option \<Rightarrow> jstring \<Rightarrow> world \<Rightarrow> world" where
  "handleLoadSession_from sid i w =
     (if Some i = sid then w
      else
        let w1 = w\<lparr>sessionId := Some i\<rparr>;
            w2 = setItem KEY_SESSION i w1
        in fetchHistory_begin i w2)"


text \<open>
  \<open>confirmed\<close> is the user's answer to \<^verbatim>\<open>window.confirm\<close>, read only where the source
  asks. As for a send, \<open>c\<close> is the state of the render whose closure the handler runs
  in, and the handler of the latest render has the state itself there.
\<close>

definition handleDeleteSession_begin_in :: "world \<Rightarrow> jstring \<Rightarrow> bool \<Rightarrow> world \<Rightarrow> world" where
  "handleDeleteSession_begin_in c i confirmed w =
     (if length (historyList c) \<le> 1 then
        alert (js ''You cannot delete the last active session. Please create a new chat first.'') w
      else if confirmed then fetch (DeleteSession i) w
      else w)"

definition handleDeleteSession_begin :: "jstring \<Rightarrow> bool \<Rightarrow> world \<Rightarrow> world" where
  "handleDeleteSession_begin i confirmed w = handleDeleteSession_begin_in w i confirmed w"

text \<open>
  After the \<^verbatim>\<open>await\<close> the handler still reads the \<^verbatim>\<open>historyList\<close> and the
  \<^verbatim>\<open>sessionId\<close> of its closure: \<open>hl\<close> and \<open>sid\<close>.
\<close>

definition handleDeleteSession_resolve ::
  "jstring \<Rightarrow> history_item list \<Rightarrow> jstring option \<Rightarrow> unit reply \<Rightarrow> world \<Rightarrow> world" where
  "handleDeleteSession_resolve i hl sid r w =
     (case r of
        Resolved _ \<Rightarrow>
          (let updatedList = filter (\<lambda>item. id' item \<noteq> i) hl;
               w1 = w\<lparr>historyList := updatedList\<rparr>;
               w2 = setItem KEY_HISTORY (stringifyList updatedList) w1
           in if Some i = sid then
                (case updatedList of
                   nextSession # _ \<Rightarrow> handleLoadSession_from sid (id' nextSession) w2
                 | [] \<Rightarrow>
                     (let w3 = w2\<lparr>sessionId := None\<rparr>;
                          w4 = w3\<lparr>messages := [initialAssistantMessage]\<rparr>
                      in removeItem KEY_SESSION w4))
              else w2)
      | Rejected \<Rightarrow> console_error (js ''Error deleting session:'') w)"

text \<open>Whether \<open>handleDeleteSession_begin\<close> sent the request.\<close>

definition delete_accepted :: "bool \<Rightarrow> world \<Rightarrow> bool" where
  "delete_accepted confirmed w \<longleftrightarrow> \<not> length (historyList w) \<le> 1 \<and> confirmed"

definition handleDeleteSession :: "jstring \<Rightarrow> bool \<Rightarrow> unit reply \<Rightarrow> world \<Rightarrow> world" where
  "handleDeleteSession i confirmed r w =
     (if delete_accepted confirmed w then
        handleDeleteSession_resolve i (historyList w) (sessionId w) r
          (handleDeleteSession_begin i confirmed w)
      else handleDeleteSession_begin i confirmed w)"

definition handleResetChat_begin_in :: "world \<Rightarrow> bool \<Rightarrow> world \<Rightarrow> world" where
  "handleResetChat_begin_in c confirmed w =
     (case sessionId c of
        None \<Rightarrow> w
      | Some sid \<Rightarrow>
          if \<not> truthy sid then w
          else if confirmed then fetch (DeleteSession sid) w
          else w)"

definition handleResetChat_begin :: "bool \<Rightarrow> world \<Rightarrow> world" where
  "handleResetChat_begin confirmed w = handleResetChat_begin_in w confirmed w"

definition handleResetChat_resolve :: "unit reply \<Rightarrow> world \<Rightarrow> world" where
  "handleResetChat_resolve r w =
     (case r of
        Resolved _ \<Rightarrow> w\<lparr>messages := [initialAssistantMessage]\<rparr>
      | Rejected \<Rightarrow> console_error (js ''Error resetting chat:'') w)"

definition reset_accepted :: "bool \<Rightarrow> world \<Rightarrow> bool" where
  "reset_accepted confirmed w \<longleftrightarrow> truthy_opt (sessionId w) \<and> confirmed"

definition handleResetChat :: "bool \<Rightarrow> unit reply \<Rightarrow> world \<Rightarrow> world" where
  "handleResetChat confirmed r w =
     (if reset_accepted confirmed w then handleResetChat_resolve r (handleResetChat_begin confirmed w)
      else handleResetChat_begin confirmed w)"


section \<open>The mount effect\<close>

datatype js_error = SyntaxError

text \<open>
  \<^verbatim>\<open>JSON.parse(localStorage.getItem('chat_history_list') || '[]')\<close>: the first statement
  of the effect, outside every \<^verbatim>\<open>try\<close>.
\<close>

definition loadRegistry :: "(jstring \<rightharpoonup> jstring) \<Rightarrow> js_error + json" where
  "loadRegistry store =
     (let text = (case store KEY_HISTORY of
                    None \<Rightarrow> js ''[]''
                  | Some s \<Rightarrow> if truthy s then s else js ''[]'')
      in case parseJSON text of None \<Rightarrow> Inl SyntaxError | Some v \<Rightarrow> Inr v)"

definition initSession :: "world \<Rightarrow> world" where
  "initSession w =
     (case localStorage w KEY_SESSION of
        None \<Rightarrow> createSession_begin w
      | Some storedSession \<Rightarrow>
          if truthy storedSession then fetchHistory_begin storedSession (w\<lparr>sessionId := Some storedSession\<rparr>)
          else createSession_begin w)"

text \<open>The state of the first render, over a given store.\<close>

definition initial_world :: "(jstring \<rightharpoonup> jstring) \<Rightarrow> world" where
  "initial_world store =
     \<lparr>sessionId = None, messages = [], input = [], isLoading = False, historyList = [],
      localStorage = store, requests = [], alerts = [], console = []\<rparr>"

text \<open>
  The effect either throws out of the component, or stores a value that is no
  \<^verbatim>\<open>HistoryItem[]\<close>, or sets the list and starts the session.
\<close>

datatype mount_result = Uncaught js_error | Untyped json | Mounted world

definition mount :: "(jstring \<rightharpoonup> jstring) \<Rightarrow> mount_result" where
  "mount store =
     (case loadRegistry store of
        Inl e \<Rightarrow> Uncaught e
      | Inr v \<Rightarrow>
          (case asHistoryList v of
             None \<Rightarrow> Untyped v
           | Some storedHistory \<Rightarrow>
               Mounted (initSession ((initial_world store)\<lparr>historyList := storedHistory\<rparr>))))"


section \<open>The component as a machine\<close>

text \<open>
  A call in flight, with what its continuation holds of the closure; the reply with which
  a call settles; and the events: what the user does, the component rendering, and a call
  in flight settling.
\<close>

datatype call =
    CallCreate
  | CallHistory
  | CallDelete jstring "history_item list" "jstring option"
  | CallReset
  | CallSend

datatype settlement =
    SessionReply jstring "jstring reply"
  | HistoryReply "message list option reply"
  | DeleteReply "unit reply"
  | ChatReply "chat_response reply"

datatype event =
    Render
  | Type jstring
  | Submit
  | NewChat
  | Select jstring
  | Delete jstring bool
  | Reset bool
  | Settle nat settlement

text \<open>
  The handlers the user can reach are those of the last render, and where the source
  reads a variable of the closure they read the state of that render, \<open>rendered\<close>, not
  the state as it is now, \<open>current\<close>. Nothing in the source makes the component render
  between two events: \<open>Render\<close> is an event of its own.
\<close>

record system =
  current :: world
  rendered :: world
  inflight :: "call list"

fun settle :: "call \<Rightarrow> settlement \<Rightarrow> world \<Rightarrow> world option" where
  "settle CallCreate (SessionReply now r) w = Some (createSession_resolve now r w)"
| "settle CallHistory (HistoryReply r) w = Some (fetchHistory_resolve r w)"
| "settle (CallDelete i hl sid) (DeleteReply r) w = Some (handleDeleteSession_resolve i hl sid r w)"
| "settle CallReset (DeleteReply r) w = Some (handleResetChat_resolve r w)"
| "settle CallSend (ChatReply r) w = Some (sendMessage_resolve r w)"
| "settle _ _ _ = None"

text \<open>
  The calls in flight are kept from what the handlers did: each request that a handler
  added to the requests sent leaves one continuation \<open>k\<close> waiting.
\<close>

definition issued :: "world \<Rightarrow> world \<Rightarrow> request list" where
  "issued w w' = drop (length (requests w)) (requests w')"

definition book :: "call \<Rightarrow> world \<Rightarrow> world \<Rightarrow> call list" where
  "book k w w' = map (\<lambda>r. k) (issued w w')"

definition after :: "system \<Rightarrow> call \<Rightarrow> world \<Rightarrow> system" where
  "after s k w' = s\<lparr>current := w', inflight := inflight s @ book k (current s) w'\<rparr>"

text \<open>
  The only continuation that sends a request is the one of \<^verbatim>\<open>handleDeleteSession\<close>,
  when it switches to the next session: a history call.
\<close>

fun step :: "event \<Rightarrow> system \<Rightarrow> system option" where
  "step Render s = Some (s\<lparr>rendered := current s\<rparr>)"
| "step (Type t) s = Some (s\<lparr>current := (current s)\<lparr>input := t\<rparr>\<rparr>)"
| "step Submit s = Some (after s CallSend (sendMessage_begin_in (rendered s) (current s)))"
| "step NewChat s = Some (after s CallCreate (handleNewChat (current s)))"
| "step (Select i) s =
     Some (after s CallHistory (handleLoadSession_from (sessionId (rendered s)) i (current s)))"
| "step (Delete i confirmed) s =
     Some (after s (CallDelete i (historyList (rendered s)) (sessionId (rendered s)))
             (handleDeleteSession_begin_in (rendered s) i confirmed (current s)))"
| "step (Reset confirmed) s =
     Some (after s CallReset (handleResetChat_begin_in (rendered s) confirmed (current s)))"
| "step (Settle k r) s =
     (if k < length (inflight s) then
        (case settle (inflight s ! k) r (current s) of
           None \<Rightarrow> None
         | Some w' \<Rightarrow>
             Some (s\<lparr>current := w',
                     inflight := take k (inflight s) @ drop (Suc k) (inflight s) @
                       book CallHistory (current s) w'\<rparr>))
      else None)"

fun run :: "event list \<Rightarrow> system \<Rightarrow> system option" where
  "run [] s = Some s"
| "run (e # es) s = (case step e s of None \<Rightarrow> None | Some s' \<Rightarrow> run es s')"

text \<open>
  The system after the mount effect: the effect ran in the closure of the first render,
  and the call it started is in flight.
\<close>

definition mountCall :: "request \<Rightarrow> call" where
  "mountCall r = (case r of PostSession \<Rightarrow> CallCreate | _ \<Rightarrow> CallHistory)"

definition boot :: "(jstring \<rightharpoonup> jstring) \<Rightarrow> system option" where
  "boot store =
     (case mount store of
        Mounted w \<Rightarrow>
          Some \<lparr>current = w, rendered = initial_world store,
                inflight = map mountCall (requests w)\<rparr>
      | _ \<Rightarrow> None)"

definition reach :: "(jstring \<rightharpoonup> jstring) \<Rightarrow> event list \<Rightarrow> system option" where
  "reach store es = (case boot store of None \<Rightarrow> None | Some s \<Rightarrow> run es s)"

text \<open>
  At most one send is in flight, and \<^verbatim>\<open>isLoading\<close> is set exactly while one is.
\<close>

definition send_inv :: "system \<Rightarrow> bool" where
  "send_inv s \<longleftrightarrow>
     count_list (inflight s) CallSend = (if isLoading (current s) then 1 else 0)"

text \<open>
  The runs in which the component has rendered just before every submit, as it does
  between two events of the user interface. \<open>f\<close> tells whether it has just rendered.
\<close>

fun renders_first :: "bool \<Rightarrow> event list \<Rightarrow> bool" where
  "renders_first f [] = True"
| "renders_first f (Render # es) = renders_first True es"
| "renders_first f (Submit # es) = (f \<and> renders_first False es)"
| "renders_first f (e # es) = renders_first False es"


section \<open>A concrete state for the examples\<close>

text \<open>
  One session \<^verbatim>\<open>abc\<close>, the greeting in the log, \<^verbatim>\<open>news?\<close> typed into the input
  and nothing in flight.
\<close>

definition example_world :: world where
  "example_world =
     \<lparr>sessionId = Some (js ''abc''),
      messages = [initialAssistantMessage],
      input = js ''news?'',
      isLoading = False,
      historyList = [\<lparr>id' = js ''abc'', date = js ''1/1/2026, 10:00:00 AM''\<rparr>],
      localStorage = Map.empty,
      requests = [],
      alerts = [],
      console = []\<rparr>"

text \<open>
  Two runs of the machine on an empty store. In both the session \<^verbatim>\<open>abc\<close> is created and
  the user types \<^verbatim>\<open>news?\<close> and submits twice before the answer has come. In the first
  the component renders before each submit, and the user has typed again in between; in
  the second the two submits reach the handler of the same render. Then a stored list in a layout of its own, and a list of
  two sessions.
\<close>

definition example_events :: "event list" where
  "example_events =
     [Settle 0 (SessionReply (js ''1/1/2026, 10:00:00 AM'') (Resolved (js ''abc''))),
      Type (js ''news?''),
      Render,
      Submit,
      Type (js ''more?''),
      Render,
      Submit]"

definition double_submit_events :: "event list" where
  "double_submit_events =
     [Settle 0 (SessionReply (js ''1/1/2026, 10:00:00 AM'') (Resolved (js ''abc''))),
      Type (js ''news?''),
      Render,
      Submit,
      Submit]"

definition other_layout_text :: jstring where
  "other_layout_text =
     js ''[{'' @ quoteJSONString (js ''date'') @ js '':'' @ quoteJSONString (js ''d'') @ js '','' @
     quoteJSONString (js ''id'') @ js '':'' @ quoteJSONString (js ''old'') @ js '','' @
     quoteJSONString (js ''pinned'') @ js '':true,'' @
     quoteJSONString (js ''id'') @ js '':'' @ quoteJSONString (js ''abc'') @ js ''}]''"

definition example_registry :: "history_item list" where
  "example_registry =
     [\<lparr>id' = js ''xyz'', date = js ''2/1/2026, 9:30:00 AM''\<rparr>,
      \<lparr>id' = js ''abc'', date = js ''1/1/2026, 10:00:00 AM''\<rparr>]"


section \<open>Properties of \<^verbatim>\<open>sendMessage\<close>\<close>

text \<open>\<open>trim\<close> leaves nothing exactly when every code unit is white space.\<close>

lemma trim_eq_Nil_iff: "trim s = [] \<longleftrightarrow> list_all isWhiteSpace s"
proof -
  have "trim s = [] \<longleftrightarrow> (\<forall>x \<in> set (dropWhile isWhiteSpace s). isWhiteSpace x)"
    by (simp add: trim_def)
  also have "\<dots> \<longleftrightarrow> dropWhile isWhiteSpace s = []"
  proof
    assume a: "\<forall>x \<in> set (dropWhile isWhiteSpace s). isWhiteSpace x"
    show "dropWhile isWhiteSpace s = []"
    proof (rule ccontr)
      assume ne: "dropWhile isWhiteSpace s \<noteq> []"
      then have "\<not> isWhiteSpace (hd (dropWhile isWhiteSpace s))"
        by (rule hd_dropWhile)
      moreover have "hd (dropWhile isWhiteSpace s) \<in> set (dropWhile isWhiteSpace s)"
        using ne by simp
      ultimately show False using a by blast
    qed
  qed (auto dest: set_dropWhileD)
  also have "\<dots> \<longleftrightarrow> list_all isWhiteSpace s"
    by (simp add: list_all_iff)
  finally show ?thesis .
qed

lemma send_accepted_iff:
  "send_accepted w \<longleftrightarrow> \<not> list_all isWhiteSpace (input w) \<and> \<not> isLoading w"
  by (simp add: send_accepted_def truthy_def trim_eq_Nil_iff)

lemma sendMessage_begin_rejected: "\<not> send_accepted w \<Longrightarrow> sendMessage_begin w = w"
  by (auto simp: send_accepted_def sendMessage_begin_def sendMessage_begin_in_def)

lemma sendMessage_begin_accepted:
  "send_accepted w \<Longrightarrow>
   sendMessage_begin w =
     w\<lparr>messages := messages w @ [\<lparr>role = User, content = input w, sources = None\<rparr>],
       input := [], isLoading := True,
       requests := requests w @ [PostChat (sessionId w) (input w)]\<rparr>"
  by (simp add: send_accepted_def sendMessage_begin_def sendMessage_begin_in_def fetch_def
      Let_def)

lemma sendMessage_messages:
  "send_accepted w \<Longrightarrow>
   messages (sendMessage r w) =
     messages w @ [\<lparr>role = User, content = input w, sources = None\<rparr>,
                   (case r of Resolved d \<Rightarrow> assistantReply d | Rejected \<Rightarrow> errorMessage)]"
  by (cases r) (simp_all add: sendMessage_def sendMessage_begin_accepted
      sendMessage_resolve_def console_error_def Let_def)

lemma news_not_blank: "\<not> list_all isWhiteSpace (js ''news?'')"
  by (simp add: js_def isWhiteSpace_def)

lemma example_world_accepts: "send_accepted example_world"
  by (simp add: send_accepted_iff example_world_def news_not_blank)

lemma example_world_sel:
  "sessionId example_world = Some (js ''abc'')"
  "messages example_world = [initialAssistantMessage]"
  "input example_world = js ''news?''"
  "isLoading example_world = False"
  "historyList example_world = [\<lparr>id' = js ''abc'', date = js ''1/1/2026, 10:00:00 AM''\<rparr>]"
  "localStorage example_world = Map.empty"
  "requests example_world = []"
  "alerts example_world = []"
  "console example_world = []"
  by (simp_all add: example_world_def)

lemma here_reply:
  "assistantReply \<lparr>answer = Some (js ''Here.''), response_sources = s\<rparr> =
     \<lparr>role = Assistant, content = js ''Here.'', sources = s\<rparr>"
  by (simp add: assistantReply_def answer_or_default_def truthy_def js_def split: option.splits)

lemma blanks_blank: "list_all isWhiteSpace (js '' '' @ [0x09, 0xA0])"
  by (simp add: js_def isWhiteSpace_def)

text \<open>
  C1, as the code has it. A send whose input is not blank, invoked while no send is
  pending, appends the user's entry and then, when the call settles, exactly one more
  entry: the assistant's reply if the call succeeded, the fixed error entry if it failed.
  The log grows by exactly 2 in both cases (not by 1 on failure), and never by more. The
  continuation alone appends its one entry to the log as it finds it.
\<close>

theorem send_appends_two:
  "\<not> list_all isWhiteSpace (input w) \<Longrightarrow> \<not> isLoading w \<Longrightarrow>
   messages (sendMessage r w) =
     messages w @ [\<lparr>role = User, content = input w, sources = None\<rparr>,
                   (case r of Resolved d \<Rightarrow> assistantReply d | Rejected \<Rightarrow> errorMessage)]
   \<and> length (messages (sendMessage r w)) = length (messages w) + 2
   \<and> messages (sendMessage_resolve r w') =
       messages w' @ [case r of Resolved d \<Rightarrow> assistantReply d | Rejected \<Rightarrow> errorMessage]"
  by (cases r) (simp_all add: send_accepted_iff sendMessage_messages sendMessage_resolve_def
      console_error_def Let_def)

theorem send_appends_two_witness:
  "\<not> list_all isWhiteSpace (input example_world) \<and> \<not> isLoading example_world \<and>
   messages (sendMessage (Resolved \<lparr>answer = Some (js ''Here.''), response_sources = None\<rparr>)
     example_world) =
     [initialAssistantMessage,
      \<lparr>role = User, content = js ''news?'', sources = None\<rparr>,
      \<lparr>role = Assistant, content = js ''Here.'', sources = None\<rparr>] \<and>
   messages (sendMessage Rejected example_world) =
     [initialAssistantMessage,
      \<lparr>role = User, content = js ''news?'', sources = None\<rparr>,
      errorMessage]"
proof -
  have h1: "\<not> list_all isWhiteSpace (input example_world)"
    by (simp add: example_world_sel news_not_blank)
  have h2: "\<not> isLoading example_world"
    by (simp add: example_world_sel)
  show ?thesis
    using h1 h2 send_appends_two [OF h1 h2, of "Resolved \<lparr>answer = Some (js ''Here.''), response_sources = None\<rparr>"]
      send_appends_two [OF h1 h2, of Rejected]
    by (simp add: example_world_sel here_reply)
qed

text \<open>
  As the specification words it, the property fails: a failed send on the example state leaves three entries in
  the log where there was one, so the log grew by 2 and not by 1.
\<close>

theorem failed_send_grows_by_two_not_one:
  "\<not> list_all isWhiteSpace (input example_world) \<and>
   length (messages (sendMessage Rejected example_world)) = length (messages example_world) + 2 \<and>
   length (messages (sendMessage Rejected example_world)) \<noteq> length (messages example_world) + 1"
  using sendMessage_messages [OF example_world_accepts, of Rejected]
  by (simp add: example_world_sel news_not_blank)

text \<open>
  C2, as the code has it. On a successful send the appended entry is an assistant entry
  whose \<^verbatim>\<open>sources\<close> field is exactly the response's: present when the response has a
  \<^verbatim>\<open>sources\<close> list, empty or not, and absent when the response has none. So a response
  with one citation gives an entry whose sources has length 1, and a response whose
  \<^verbatim>\<open>sources\<close> is the empty list gives an entry with an empty \<^verbatim>\<open>sources\<close> list.
\<close>

theorem reply_sources_as_response:
  "messages (sendMessage_resolve (Resolved d) w) = messages w @ [assistantReply d] \<and>
   role (assistantReply d) = Assistant \<and>
   sources (assistantReply d) = response_sources d"
  by (simp add: sendMessage_resolve_def assistantReply_def split: option.splits)

text \<open>
  As the specification words it, the property fails: the empty array is truthy, so a response with
  \<^verbatim>\<open>sources: []\<close> yields an entry that has a \<^verbatim>\<open>sources\<close> field.
\<close>

theorem empty_sources_kept:
  "sources (assistantReply \<lparr>answer = Some (js ''Here.''), response_sources = Some []\<rparr>) = Some [] \<and>
   sources (assistantReply \<lparr>answer = Some (js ''Here.''), response_sources = Some []\<rparr>) \<noteq> None"
  by (simp add: here_reply)

text \<open>The scenario of the specification: one citation, one source on the entry.\<close>

lemma one_citation_scenario:
  "map_option length
     (sources (last (messages (sendMessage
        (Resolved \<lparr>answer = Some (js ''Here.''),
                   response_sources = Some [\<lparr>link = js ''http://x'', source = js ''X''\<rparr>]\<rparr>)
        example_world)))) = Some 1"
  using sendMessage_messages [OF example_world_accepts]
  by (simp add: here_reply)

text \<open>
  C7. When the input is empty or holds only white space, \<^verbatim>\<open>sendMessage\<close> returns at
  its guard: the whole state is unchanged, so no entry is appended to the log and no
  request joins the requests sent.
\<close>

theorem blank_send_noop:
  "list_all isWhiteSpace (input w) \<Longrightarrow>
   sendMessage_begin w = w \<and> sendMessage r w = w \<and>
   messages (sendMessage r w) = messages w \<and> requests (sendMessage r w) = requests w"
  by (simp add: sendMessage_def sendMessage_begin_rejected send_accepted_iff)

theorem blank_send_noop_witness:
  "list_all isWhiteSpace (input (example_world\<lparr>input := js '' '' @ [0x09, 0xA0]\<rparr>)) \<and>
   sendMessage Rejected (example_world\<lparr>input := js '' '' @ [0x09, 0xA0]\<rparr>) =
     example_world\<lparr>input := js '' '' @ [0x09, 0xA0]\<rparr> \<and>
   requests (sendMessage Rejected (example_world\<lparr>input := js '' '' @ [0x09, 0xA0]\<rparr>)) = []"
proof -
  have h: "list_all isWhiteSpace (input (example_world\<lparr>input := js '' '' @ [0x09, 0xA0]\<rparr>))"
    using blanks_blank by simp
  show ?thesis
    using h blank_send_noop [OF h, of Rejected] by (simp add: example_world_sel)
qed


section \<open>Properties of the session handlers\<close>


lemma abc_truthy: "js ''abc'' \<noteq> []"
  by (simp add: js_def)



text \<open>
  C5. When the session list holds at most one entry, \<^verbatim>\<open>handleDeleteSession\<close> shows
  the warning and returns: the state is the old one with the warning added to the alerts
  shown. No request is sent, and the list, the log, the active id and the store are
  unchanged, whatever the user would have answered and however a call would have
  settled; a list of one entry keeps its entry.
\<close>

theorem delete_last_rejected:
  "length (historyList w) \<le> 1 \<Longrightarrow>
   handleDeleteSession i confirmed r w =
     w\<lparr>alerts := alerts w @
       [js ''You cannot delete the last active session. Please create a new chat first.'']\<rparr> \<and>
   requests (handleDeleteSession i confirmed r w) = requests w \<and>
   historyList (handleDeleteSession i confirmed r w) = historyList w \<and>
   messages (handleDeleteSession i confirmed r w) = messages w \<and>
   sessionId (handleDeleteSession i confirmed r w) = sessionId w \<and>
   localStorage (handleDeleteSession i confirmed r w) = localStorage w \<and>
   (1 \<le> length (historyList w) \<longrightarrow>
      1 \<le> length (historyList (handleDeleteSession i confirmed r w)))"
  by (simp add: handleDeleteSession_def delete_accepted_def handleDeleteSession_begin_def
      handleDeleteSession_begin_in_def alert_def)

theorem delete_last_rejected_witness:
  "length (historyList example_world) \<le> 1 \<and>
   alerts (handleDeleteSession (js ''abc'') True (Resolved ()) example_world) =
     [js ''You cannot delete the last active session. Please create a new chat first.''] \<and>
   requests (handleDeleteSession (js ''abc'') True (Resolved ()) example_world) = [] \<and>
   length (historyList (handleDeleteSession (js ''abc'') True (Resolved ()) example_world)) = 1 \<and>
   sessionId (handleDeleteSession (js ''abc'') True (Resolved ()) example_world) = Some (js ''abc'')"
proof -
  have h: "length (historyList example_world) \<le> 1"
    by (simp add: example_world_sel)
  show ?thesis
    using h delete_last_rejected [OF h, of "js ''abc''" True "Resolved ()"]
    by (simp add: example_world_sel)
qed

text \<open>
  C8. With an active session, a reset that the user confirms and whose call succeeds
  leaves the state as it was but for two things: the log is the single greeting, and the
  delete request for the active id has been sent. The session list, the active id and
  the store are untouched. The continuation alone changes nothing but the log, so this
  also holds when other handlers ran while the call was in flight. Without an active
  session (no id, or the empty id) the handler returns at once.
\<close>

theorem reset_frame:
  "(sessionId w = Some sid \<and> sid \<noteq> [] \<longrightarrow>
      handleResetChat True (Resolved u) w =
        w\<lparr>messages := [initialAssistantMessage], requests := requests w @ [DeleteSession sid]\<rparr>) \<and>
   (\<not> truthy_opt (sessionId w) \<longrightarrow> handleResetChat confirmed r w = w) \<and>
   handleResetChat_resolve (Resolved u) w = w\<lparr>messages := [initialAssistantMessage]\<rparr>"
  by (auto simp: handleResetChat_def reset_accepted_def handleResetChat_begin_def
      handleResetChat_begin_in_def handleResetChat_resolve_def truthy_opt_def truthy_def fetch_def split: option.splits)

theorem reset_frame_witness:
  "sessionId example_world = Some (js ''abc'') \<and> js ''abc'' \<noteq> [] \<and>
   messages (handleResetChat True (Resolved ()) example_world) = [initialAssistantMessage] \<and>
   historyList (handleResetChat True (Resolved ()) example_world) = historyList example_world \<and>
   sessionId (handleResetChat True (Resolved ()) example_world) = Some (js ''abc'') \<and>
   localStorage (handleResetChat True (Resolved ()) example_world) = localStorage example_world \<and>
   requests (handleResetChat True (Resolved ()) example_world) = [DeleteSession (js ''abc'')] \<and>
   \<not> truthy_opt (sessionId (example_world\<lparr>sessionId := None\<rparr>)) \<and>
   handleResetChat True (Resolved ()) (example_world\<lparr>sessionId := None\<rparr>) =
     example_world\<lparr>sessionId := None\<rparr>"
  using reset_frame [of example_world "js ''abc''" "()"]
    reset_frame [of "example_world\<lparr>sessionId := None\<rparr>" "[]" "()" True "Resolved ()"]
    abc_truthy
  by (simp add: example_world_sel truthy_opt_def)

text \<open>
  C6. A history load sends the request for the id and, when the service answers,
  replaces the log whatever it held: by the history returned if that is not empty, with
  nothing put before it, and by the single greeting if the history is empty or the body
  has none.
\<close>

theorem history_replaces_log:
  "(h \<noteq> [] \<longrightarrow> messages (fetchHistory i (Resolved (Some h)) w) = h) \<and>
   messages (fetchHistory i (Resolved (Some [])) w) = [initialAssistantMessage] \<and>
   messages (fetchHistory i (Resolved None) w) = [initialAssistantMessage] \<and>
   requests (fetchHistory i r w) = requests w @ [GetHistory i]"
  by (cases r) (auto simp: fetchHistory_def fetchHistory_begin_def fetchHistory_resolve_def
      fetch_def console_error_def split: option.splits)

theorem history_replaces_log_witness:
  "[\<lparr>role = User, content = js ''hi'', sources = None\<rparr>] \<noteq> [] \<and>
   messages (fetchHistory (js ''abc'')
     (Resolved (Some [\<lparr>role = User, content = js ''hi'', sources = None\<rparr>])) example_world) =
     [\<lparr>role = User, content = js ''hi'', sources = None\<rparr>] \<and>
   messages (fetchHistory (js ''abc'') (Resolved (Some [])) example_world) =
     [initialAssistantMessage]"
  using history_replaces_log
    [of "[\<lparr>role = User, content = js ''hi'', sources = None\<rparr>]" "js ''abc''" example_world]
  by simp

text \<open>
  C4, as the code has it. Every handler catches the failure of its remote call and
  writes one line with \<^verbatim>\<open>console.error\<close>; none throws it further. Only a failed send
  puts a fallback into the log, the fixed error entry (and clears the loading flag). A
  failed session creation, history load, deletion or reset changes nothing but the
  console: the log is left as it was, with no greeting and no error entry added.
\<close>

theorem failures_logged_send_falls_back:
  "createSession_resolve now Rejected w = console_error (js ''Error creating session:'') w \<and>
   fetchHistory_resolve Rejected w = console_error (js ''Error fetching history:'') w \<and>
   handleDeleteSession_resolve i hl sid Rejected w =
     console_error (js ''Error deleting session:'') w \<and>
   handleResetChat_resolve Rejected w = console_error (js ''Error resetting chat:'') w \<and>
   sendMessage_resolve Rejected w =
     (console_error (js ''Error sending message:'') w)
       \<lparr>messages := messages w @ [errorMessage], isLoading := False\<rparr> \<and>
   console_error l w = w\<lparr>console := console w @ [l]\<rparr>"
  by (simp add: createSession_resolve_def fetchHistory_resolve_def handleDeleteSession_resolve_def
      handleResetChat_resolve_def sendMessage_resolve_def console_error_def Let_def)

text \<open>
  As the specification words it, the property fails: on the state of the first render, a history load that fails
  leaves the log empty. The failure is on the console, and the log shows neither the
  greeting nor the error entry.
\<close>

theorem failed_history_load_leaves_log_empty:
  "messages (fetchHistory (js ''abc'') Rejected (initial_world Map.empty)) = [] \<and>
   console (fetchHistory (js ''abc'') Rejected (initial_world Map.empty)) =
     [js ''Error fetching history:'']"
  by (simp add: fetchHistory_def fetchHistory_begin_def fetchHistory_resolve_def
      fetch_def console_error_def initial_world_def)


section \<open>At most one send in flight\<close>

lemma count_list_remove_nth:
  assumes "k < length fl"
  shows "count_list (take k fl @ drop (Suc k) fl) x =
         count_list fl x - (if fl ! k = x then 1 else 0)"
proof -
  have "fl = take k fl @ fl ! k # drop (Suc k) fl"
    using assms by (rule id_take_nth_drop)
  then have "count_list fl x = count_list (take k fl) x + count_list (fl ! k # drop (Suc k) fl) x"
    by (metis count_list_append)
  then show ?thesis by simp
qed

lemma count_list_const: "count_list (map (\<lambda>r. k) xs) x = (if k = x then length xs else 0)"
  by (induction xs) auto

lemma count_list_book:
  "count_list (book k w w') x = (if k = x then length (issued w w') else 0)"
  by (simp add: book_def count_list_const)

text \<open>What a submit sends: one chat request past the guard, nothing at the guard.\<close>

lemma issued_self: "issued w w = []"
  by (simp add: issued_def)

lemma sendMessage_begin_in_guard:
  "\<not> truthy (trim (input c)) \<or> isLoading c \<Longrightarrow> sendMessage_begin_in c w = w"
  by (auto simp: sendMessage_begin_in_def)

lemma sendMessage_begin_in_sends:
  "truthy (trim (input c)) \<Longrightarrow> \<not> isLoading c \<Longrightarrow>
   isLoading (sendMessage_begin_in c w) \<and>
   issued w (sendMessage_begin_in c w) = [PostChat (sessionId c) (input c)]"
  by (simp add: sendMessage_begin_in_def fetch_def issued_def Let_def)

text \<open>Only the continuation of a send writes \<^verbatim>\<open>isLoading\<close>, and it clears it.\<close>

lemma settle_isLoading:
  "settle c s w = Some w' \<Longrightarrow> c \<noteq> CallSend \<Longrightarrow> isLoading w' = isLoading w"
  by (cases c; cases s)
     (auto simp: createSession_resolve_def fetchHistory_resolve_def handleDeleteSession_resolve_def
       handleResetChat_resolve_def console_error_def setItem_def removeItem_def Let_def
       handleLoadSession_from_def fetchHistory_begin_def fetch_def
       split: reply.splits option.splits list.splits if_splits)

lemma settle_send_isLoading: "settle CallSend s w = Some w' \<Longrightarrow> \<not> isLoading w'"
  by (cases s) (auto simp: sendMessage_resolve_def Let_def)

lemma begin_isLoading:
  "isLoading (handleNewChat w) = isLoading w"
  "isLoading (handleLoadSession_from sid i w) = isLoading w"
  "isLoading (handleDeleteSession_begin_in c i confirmed w) = isLoading w"
  "isLoading (handleResetChat_begin_in c confirmed w) = isLoading w"
  by (simp_all add: handleNewChat_def createSession_begin_def
      handleLoadSession_from_def handleDeleteSession_begin_in_def handleResetChat_begin_in_def
      fetchHistory_begin_def fetch_def alert_def setItem_def Let_def split: option.splits)

lemma after_send_inv:
  "send_inv s \<Longrightarrow> k \<noteq> CallSend \<Longrightarrow> isLoading w' = isLoading (current s) \<Longrightarrow>
   send_inv (after s k w')"
  by (simp add: send_inv_def after_def count_list_book)

text \<open>
  A submit keeps the invariant when the closure it runs in shows the flag as it is.
\<close>

lemma submit_send_inv:
  assumes inv: "send_inv s"
    and fresh: "isLoading (rendered s) = isLoading (current s)"
    and st: "step Submit s = Some s'"
  shows "send_inv s'"
proof (cases "truthy (trim (input (rendered s))) \<and> \<not> isLoading (rendered s)")
  from st have s': "s' = after s CallSend (sendMessage_begin_in (rendered s) (current s))"
    by simp
  case True
  then have "isLoading (sendMessage_begin_in (rendered s) (current s))"
    and "issued (current s) (sendMessage_begin_in (rendered s) (current s)) =
         [PostChat (sessionId (rendered s)) (input (rendered s))]"
    using sendMessage_begin_in_sends [of "rendered s" "current s"] by simp_all
  moreover from True fresh have "\<not> isLoading (current s)" by simp
  ultimately show ?thesis
    using inv s' by (simp add: send_inv_def after_def count_list_book)
next
  from st have s': "s' = after s CallSend (sendMessage_begin_in (rendered s) (current s))"
    by simp
  case False
  then have "sendMessage_begin_in (rendered s) (current s) = current s"
    using sendMessage_begin_in_guard [of "rendered s" "current s"] by auto
  then show ?thesis
    using inv s' by (simp add: send_inv_def after_def count_list_book issued_self)
qed

lemma other_send_inv:
  assumes inv: "send_inv s" and e: "e \<noteq> Submit" and st: "step e s = Some s'"
  shows "send_inv s'"
proof (cases e)
  case Render
  with inv st show ?thesis by (auto simp: send_inv_def)
next
  case (Type x)
  with inv st show ?thesis by (auto simp: send_inv_def)
next
  case Submit
  with e show ?thesis by simp
next
  case NewChat
  with inv st show ?thesis by (auto simp: after_send_inv begin_isLoading)
next
  case (Select i)
  with inv st show ?thesis by (auto simp: after_send_inv begin_isLoading)
next
  case (Delete i c)
  with inv st show ?thesis by (auto simp: after_send_inv begin_isLoading)
next
  case (Reset c)
  with inv st show ?thesis by (auto simp: after_send_inv begin_isLoading)
next
  case (Settle k r)
  let ?fl = "inflight s"
  from Settle st obtain w' where
    k: "k < length ?fl" and w': "settle (?fl ! k) r (current s) = Some w'" and
    s': "s' = s\<lparr>current := w',
                 inflight := take k ?fl @ drop (Suc k) ?fl @ book CallHistory (current s) w'\<rparr>"
    by (auto split: if_splits option.splits)
  from inv have c: "count_list ?fl CallSend = (if isLoading (current s) then 1 else 0)"
    by (simp add: send_inv_def)
  have cnt: "count_list (take k ?fl @ drop (Suc k) ?fl @ book CallHistory (current s) w') CallSend =
             count_list ?fl CallSend - (if ?fl ! k = CallSend then 1 else 0)"
    using count_list_remove_nth [OF k, of CallSend]
    by (simp add: count_list_book del: append_assoc flip: append_assoc)
  show ?thesis
  proof (cases "?fl ! k = CallSend")
    case True
    then have "CallSend \<in> set ?fl" using k by (metis nth_mem)
    then have "count_list ?fl CallSend \<noteq> 0" by (simp add: count_list_0_iff)
    with c have "count_list ?fl CallSend = 1" by (auto split: if_splits)
    moreover from True w' have "\<not> isLoading w'" by (simp add: settle_send_isLoading)
    ultimately show ?thesis using s' cnt True by (simp add: send_inv_def)
  next
    case False
    with w' have "isLoading w' = isLoading (current s)" by (rule settle_isLoading)
    with s' cnt False c show ?thesis by (simp add: send_inv_def)
  qed
qed

lemma rendered_after_Render: "step Render s = Some s' \<Longrightarrow> rendered s' = current s'"
  by auto

lemma run_send_inv:
  "send_inv s \<Longrightarrow> (f \<Longrightarrow> isLoading (rendered s) = isLoading (current s)) \<Longrightarrow>
   renders_first f es \<Longrightarrow> run es s = Some s' \<Longrightarrow> send_inv s'"
proof (induction es arbitrary: s f)
  case Nil
  then show ?case by simp
next
  case (Cons e es)
  from Cons.prems(4) obtain s1 where s1: "step e s = Some s1" and r: "run es s1 = Some s'"
    by (auto split: option.splits)
  show ?case
  proof (cases "e = Submit")
    case True
    with Cons.prems(3) have f: f and rf: "renders_first False es" by simp_all
    from f Cons.prems(2) have "isLoading (rendered s) = isLoading (current s)" by simp
    with Cons.prems(1) s1 True have "send_inv s1" by (auto intro: submit_send_inv)
    then show ?thesis using Cons.IH [of s1 False] rf r by simp
  next
    case False
    have inv1: "send_inv s1"
      using other_send_inv [OF Cons.prems(1) False s1] .
    show ?thesis
    proof (cases "e = Render")
      case True
      with Cons.prems(3) have rf: "renders_first True es" by simp
      from True s1 have "rendered s1 = current s1" by (auto dest: rendered_after_Render)
      then show ?thesis using Cons.IH [of s1 True] inv1 rf r by simp
    next
      case nr: False
      with False Cons.prems(3) have rf: "renders_first False es" by (cases e) simp_all
      then show ?thesis using Cons.IH [of s1 False] inv1 r by simp
    qed
  qed
qed

text \<open>The mount effect starts no send.\<close>

lemma boot_send_inv: "boot store = Some s \<Longrightarrow> send_inv s"
  by (auto simp: boot_def mount_def initSession_def initial_world_def send_inv_def
      createSession_begin_def fetchHistory_begin_def fetch_def mountCall_def
      split: mount_result.splits sum.splits option.splits if_splits)

lemma example_reach:
  "send_inv (the (boot Map.empty))"
  "renders_first False example_events"
  "map_option inflight (run example_events (the (boot Map.empty))) = Some [CallSend]"
  "map_option (\<lambda>s. requests (current s)) (run example_events (the (boot Map.empty))) =
     Some [PostSession, PostChat (Some (js ''abc'')) (js ''news?'')]"
  by code_simp+

text \<open>
  C10, as the code has it. The continuation of a send clears \<^verbatim>\<open>isLoading\<close> however the
  call settled, so a send that got past the guard has set the flag and, once its call has
  settled, has cleared it again: a send that has settled, failed or not, leaves the form
  enabled. A submit in a closure that shows the flag set sends nothing. So, from a state
  without a send in flight, as long as the component renders before each submit, at most
  one send is in flight and the flag is set exactly while one is. The guard reads the
  flag of the closure: it does not hold back a second submit that reaches the handler of
  the same render.
\<close>

theorem send_single_flight:
  "\<not> isLoading (sendMessage_resolve r w0) \<and>
   (send_accepted w0 \<longrightarrow> isLoading (sendMessage_begin w0) \<and> \<not> isLoading (sendMessage r w0)) \<and>
   (isLoading c \<longrightarrow>
      sendMessage_begin_in c w = w \<and> requests (sendMessage_begin_in c w) = requests w) \<and>
   (send_inv s0 \<and> renders_first False es \<and> run es s0 = Some s \<longrightarrow>
      count_list (inflight s) CallSend \<le> 1 \<and>
      (isLoading (current s) \<longleftrightarrow> CallSend \<in> set (inflight s)))"
proof (intro conjI impI)
  show "\<not> isLoading (sendMessage_resolve r w0)"
    by (simp add: sendMessage_resolve_def Let_def)
  then show "\<not> isLoading (sendMessage r w0)" if "send_accepted w0"
    using that by (simp add: sendMessage_def sendMessage_resolve_def Let_def)
  show "isLoading (sendMessage_begin w0)" if "send_accepted w0"
    using that by (simp add: sendMessage_begin_accepted)
  show "sendMessage_begin_in c w = w" if "isLoading c"
    using that by (simp add: sendMessage_begin_in_guard)
  then show "requests (sendMessage_begin_in c w) = requests w" if "isLoading c"
    using that by simp
  assume a: "send_inv s0 \<and> renders_first False es \<and> run es s0 = Some s"
  then have "send_inv s"
    using run_send_inv [of s0 False es s] by simp
  then have inv: "count_list (inflight s) CallSend = (if isLoading (current s) then 1 else 0)"
    by (simp add: send_inv_def)
  then show "count_list (inflight s) CallSend \<le> 1" by simp
  from inv show "isLoading (current s) \<longleftrightarrow> CallSend \<in> set (inflight s)"
    using count_list_0_iff [of "inflight s" CallSend] by (auto split: if_splits)
qed

theorem send_single_flight_witness:
  "send_accepted example_world \<and> isLoading (sendMessage_begin example_world) \<and>
   \<not> isLoading (sendMessage Rejected example_world) \<and>
   isLoading (example_world\<lparr>isLoading := True\<rparr>) \<and>
   requests (sendMessage_begin_in (example_world\<lparr>isLoading := True\<rparr>) example_world) =
     requests example_world \<and>
   send_inv (the (boot Map.empty)) \<and> renders_first False example_events \<and>
   run example_events (the (boot Map.empty)) =
     Some (the (run example_events (the (boot Map.empty)))) \<and>
   inflight (the (run example_events (the (boot Map.empty)))) = [CallSend] \<and>
   isLoading (current (the (run example_events (the (boot Map.empty)))))"
proof -
  let ?R = "run example_events (the (boot Map.empty))"
  from example_reach(3) obtain s where s: "?R = Some s" by auto
  then have r: "?R = Some (the ?R)" by simp
  have fl: "inflight (the ?R) = [CallSend]" using example_reach(3) s by simp
  show ?thesis
    using send_single_flight [of Rejected example_world "example_world\<lparr>isLoading := True\<rparr>"
        example_world "the (boot Map.empty)" example_events "the ?R"]
      example_world_accepts example_reach(1,2) r fl
    by simp
qed

text \<open>
  As the specification words it, the property fails: when two submits reach the handler of
  one render, both pass the guard, two chat requests are sent and two sends are in
  flight. When the first of them has settled the flag is clear while the other is still
  in flight.
\<close>

lemma double_submit_reach:
  "map_option inflight (reach Map.empty double_submit_events) = Some [CallSend, CallSend]"
  "map_option (\<lambda>s. requests (current s)) (reach Map.empty double_submit_events) =
     Some [PostSession, PostChat (Some (js ''abc'')) (js ''news?''),
           PostChat (Some (js ''abc'')) (js ''news?'')]"
  "map_option inflight
     (reach Map.empty (double_submit_events @ [Settle 0 (ChatReply Rejected)])) = Some [CallSend]"
  "map_option (\<lambda>s. isLoading (current s))
     (reach Map.empty (double_submit_events @ [Settle 0 (ChatReply Rejected)])) = Some False"
  by code_simp+

theorem double_submit_two_sends:
  "map_option (\<lambda>s. count_list (inflight s) CallSend) (reach Map.empty double_submit_events) =
     Some 2 \<and>
   map_option (\<lambda>s. requests (current s)) (reach Map.empty double_submit_events) =
     Some [PostSession, PostChat (Some (js ''abc'')) (js ''news?''),
           PostChat (Some (js ''abc'')) (js ''news?'')] \<and>
   map_option (\<lambda>s. (isLoading (current s), inflight s))
     (reach Map.empty (double_submit_events @ [Settle 0 (ChatReply Rejected)])) =
     Some (False, [CallSend])"
proof -
  let ?R = "reach Map.empty double_submit_events"
  let ?S = "reach Map.empty (double_submit_events @ [Settle 0 (ChatReply Rejected)])"
  from double_submit_reach(1) obtain s where s: "?R = Some s" by auto
  from double_submit_reach(3) obtain t where t: "?S = Some t" by auto
  show ?thesis
    using double_submit_reach s t by auto
qed


section \<open>The stored session list is read back as written\<close>

text \<open>A code unit is the value of its four hexadecimal digits.\<close>

lemma hexValue_hexDigit: "d < 16 \<Longrightarrow> hexValue (hexDigit d) = Some d"
proof -
  assume "d < 16"
  then have "d = 0 \<or> d = 1 \<or> d = 2 \<or> d = 3 \<or> d = 4 \<or> d = 5 \<or> d = 6 \<or> d = 7 \<or>
    d = 8 \<or> d = 9 \<or> d = 10 \<or> d = 11 \<or> d = 12 \<or> d = 13 \<or> d = 14 \<or> d = 15"
    by arith
  then show ?thesis
    by (elim disjE) (simp_all add: hexValue_def hexDigit_def)
qed

lemma nibbles:
  fixes n :: nat
  shows "4096 * (n div 4096) + 256 * (n div 256 mod 16) + 16 * (n div 16 mod 16) + n mod 16 = n"
proof -
  have b: "n div 256 = n div 16 div 16"
    using div_mult2_eq [of n 16 16] by simp
  have c: "n div 4096 = n div 256 div 16"
    using div_mult2_eq [of n 256 16] by simp
  have 1: "n = 16 * (n div 16) + n mod 16" by simp
  have 2: "n div 16 = 16 * (n div 16 div 16) + n div 16 mod 16" by simp
  have 3: "n div 256 = 16 * (n div 256 div 16) + n div 256 mod 16" by simp
  from 1 2 3 b c show ?thesis by linarith
qed

lemma hex4_unicodeEscape:
  "unicodeEscape c = [0x5C, 0x75, h3, h2, h1, h0] \<Longrightarrow> hex4 h3 h2 h1 h0 = Some c"
proof -
  assume a: "unicodeEscape c = [0x5C, 0x75, h3, h2, h1, h0]"
  let ?n = "unat c"
  have lt: "?n < 65536" using unsigned_less [of c, where ?'a = nat] by simp
  then have d: "?n div 4096 < 16" by simp
  from a have "h3 = hexDigit (?n div 4096)" "h2 = hexDigit (?n div 256 mod 16)"
    "h1 = hexDigit (?n div 16 mod 16)" "h0 = hexDigit (?n mod 16)"
    by (simp_all add: unicodeEscape_def)
  then have "hex4 h3 h2 h1 h0 =
    Some (of_nat (4096 * (?n div 4096) + 256 * (?n div 256 mod 16) + 16 * (?n div 16 mod 16) + ?n mod 16))"
    using d by (simp add: hex4_def hexValue_hexDigit)
  then show ?thesis by (simp only: nibbles) simp
qed

lemma lexString_unicodeEscape:
  "lexString (unicodeEscape c @ rest) = consChar c (lexString rest)"
proof -
  obtain h3 h2 h1 h0 where u: "unicodeEscape c = [0x5C, 0x75, h3, h2, h1, h0]"
    by (simp add: unicodeEscape_def)
  from hex4_unicodeEscape [OF u] show ?thesis
    by (simp add: u)
qed

lemma lexString_quoteUnit:
  "lexString (quoteUnit c @ rest) = consChar c (lexString rest)"
proof (cases "c < 0x20 \<or> isLeadingSurrogate c \<or> isTrailingSurrogate c")
  case True
  then have nq: "c \<noteq> 0x22" "c \<noteq> 0x5C"
    by (auto simp: isLeadingSurrogate_def isTrailingSurrogate_def)
  show ?thesis
  proof (cases "c = 0x08 \<or> c = 0x09 \<or> c = 0x0A \<or> c = 0x0C \<or> c = 0x0D")
    case True
    then show ?thesis by (auto simp: quoteUnit_def simpleEscape_def)
  next
    case False
    with True nq have "quoteUnit c = unicodeEscape c"
      by (simp add: quoteUnit_def)
    then show ?thesis by (simp add: lexString_unicodeEscape)
  qed
next
  case False
  then show ?thesis
    by (auto simp: quoteUnit_def simpleEscape_def)
qed

lemma lexString_quoteBody:
  "lexString (quoteBody s @ 0x22 # rest) = Some (s, rest)"
proof (induction s rule: quoteBody.induct)
  case 1
  then show ?case by simp
next
  case (2 c)
  have "lexString (quoteUnit c @ 0x22 # rest) = consChar c (lexString (0x22 # rest))"
    by (rule lexString_quoteUnit)
  then show ?case by (simp add: consChar_def)
next
  case (3 c d cs)
  show ?case
  proof (cases "isLeadingSurrogate c \<and> isTrailingSurrogate d")
    case True
    then have ne: "c \<noteq> 0x22" "c \<noteq> 0x5C" "\<not> c < 0x20" "d \<noteq> 0x22" "d \<noteq> 0x5C" "\<not> d < 0x20"
      by (auto simp: isLeadingSurrogate_def isTrailingSurrogate_def word_le_nat_alt
          word_less_nat_alt)
    from True have ih: "lexString (quoteBody cs @ 0x22 # rest) = Some (cs, rest)"
      by (rule 3(1))
    have "quoteBody (c # d # cs) @ 0x22 # rest = c # d # (quoteBody cs @ 0x22 # rest)"
      using True by simp
    then show ?thesis
      using ne ih by (simp add: consChar_def)
  next
    case False
    then have ih: "lexString (quoteBody (d # cs) @ 0x22 # rest) = Some (d # cs, rest)"
      by (rule 3(2))
    have "quoteBody (c # d # cs) @ 0x22 # rest = quoteUnit c @ (quoteBody (d # cs) @ 0x22 # rest)"
      using False by auto
    then have "lexString (quoteBody (c # d # cs) @ 0x22 # rest) =
               consChar c (lexString (quoteBody (d # cs) @ 0x22 # rest))"
      by (simp only: lexString_quoteUnit)
    then show ?thesis
      by (simp only: ih consChar_def option.case prod.case)
  qed
qed

lemma lex_quoted:
  "lex (quoteJSONString s @ rest) = consToken (Scalar (JString s)) (lex rest)"
  by (simp add: quoteJSONString_def isJSONWhiteSpace_def lexString_quoteBody)

lemma js_punct:
  "js ''{'' = [0x7B]" "js ''}'' = [0x7D]" "js ''['' = [0x5B]" "js '']'' = [0x5D]"
  "js '':'' = [0x3A]" "js '','' = [0x2C]"
  by (simp_all add: js_def)

lemma lex_punct:
  "lex (0x7B # cs) = consToken LBrace (lex cs)"
  "lex (0x7D # cs) = consToken RBrace (lex cs)"
  "lex (0x5B # cs) = consToken LBracket (lex cs)"
  "lex (0x5D # cs) = consToken RBracket (lex cs)"
  "lex (0x3A # cs) = consToken Colon (lex cs)"
  "lex (0x2C # cs) = consToken Comma (lex cs)"
  by (simp_all add: isJSONWhiteSpace_def)

lemma lex_item:
  "lex (stringifyItem h @ rest) = foldr consToken (itemTokens h) (lex rest)"
  by (simp add: stringifyItem_def itemTokens_def js_punct lex_punct lex_quoted del: lex.simps)

lemma lex_items:
  "lex (joinComma (map stringifyItem hs) @ rest) = foldr consToken (listTokens hs) (lex rest)"
proof (induction hs rule: listTokens.induct)
  case 1
  then show ?case by simp
next
  case (2 h)
  then show ?case by (simp add: lex_item del: lex.simps)
next
  case (3 h g hs)
  then show ?case by (simp add: lex_item js_punct lex_punct del: lex.simps)
qed

lemma foldr_consToken_Some: "foldr consToken ts (Some us) = Some (ts @ us)"
  by (induction ts) (simp_all add: consToken_def)

lemma lex_stringifyList:
  "lex (stringifyList hs) = Some (LBracket # listTokens hs @ [RBracket])"
proof -
  have "lex (stringifyList hs) =
        consToken LBracket (foldr consToken (listTokens hs) (consToken RBracket (lex [])))"
    by (simp add: stringifyList_def js_punct lex_punct lex_items del: lex.simps)
  then show ?thesis
    by (simp add: foldr_consToken_Some consToken_def)
qed

lemma psteps_item:
  "m = MValue \<or> m = MValueOrEnd \<Longrightarrow>
   psteps (m, InArray acc # st) (itemTokens h @ ts) =
   psteps (MAfter, InArray (itemJson h # acc) # st) ts"
  by (auto simp: itemTokens_def itemJson_def pstep_def openValue_def readKey_def afterComma_def
      closeObject_def)

lemma psteps_items:
  "hs \<noteq> [] \<Longrightarrow> m = MValue \<or> m = MValueOrEnd \<Longrightarrow>
   psteps (m, [InArray acc]) (listTokens hs @ [RBracket]) =
   Some (MDone (JArray (rev acc @ map itemJson hs)), [])"
proof (induction hs arbitrary: acc m rule: listTokens.induct)
  case 1
  then show ?case by simp
next
  case (2 h)
  then show ?case
    by (simp add: psteps_item pstep_def closeArray_def)
next
  case (3 h g hs)
  have "psteps (m, [InArray acc]) (listTokens (h # g # hs) @ [RBracket]) =
        psteps (MAfter, [InArray (itemJson h # acc)]) (Comma # listTokens (g # hs) @ [RBracket])"
    using 3(3) by (simp add: psteps_item)
  also have "\<dots> = psteps (MValue, [InArray (itemJson h # acc)]) (listTokens (g # hs) @ [RBracket])"
    by (simp add: pstep_def afterComma_def)
  also have "\<dots> = Some (MDone (JArray (rev (itemJson h # acc) @ map itemJson (g # hs))), [])"
    by (rule 3(1)) simp_all
  finally show ?case by simp
qed

lemma parseTokens_list:
  "parseTokens (LBracket # listTokens hs @ [RBracket]) = Some (JArray (map itemJson hs))"
proof (cases hs)
  case Nil
  then show ?thesis
    by (simp add: parseTokens_def pstep_def openValue_def closeArray_def)
next
  case (Cons h hs')
  then have "hs \<noteq> []" by simp
  from psteps_items [OF this, of MValueOrEnd "[]"] show ?thesis
    by (simp add: parseTokens_def pstep_def openValue_def)
qed

lemma parseJSON_stringifyList: "parseJSON (stringifyList hs) = Some (JArray (map itemJson hs))"
  by (simp add: parseJSON_def lex_stringifyList parseTokens_list)

lemma asHistoryItem_itemJson: "asHistoryItem (itemJson h) = Some h"
  by (simp add: asHistoryItem_def itemJson_def lookupLast_def js_def)

lemma asHistoryList_items: "asHistoryList (JArray (map itemJson hs)) = Some hs"
  by (induction hs) (simp_all add: asHistoryList_def asHistoryItem_itemJson)

lemma stringifyList_truthy: "truthy (stringifyList hs)"
  by (simp add: truthy_def stringifyList_def js_punct)


section \<open>Properties of the mount effect\<close>

lemma parseJSON_empty_array: "parseJSON (js ''[]'') = Some (JArray [])"
  by code_simp

lemma parseJSON_truncated: "parseJSON (js ''[{'') = None"
  by code_simp

lemma truncated_truthy: "js ''[{'' \<noteq> []"
  by (simp add: js_def)

text \<open>A stored text that is JSON but no list is kept as it is parsed.\<close>

lemma parseJSON_null: "parseJSON (js ''null'') = Some JNull"
  by code_simp

lemma null_truthy: "js ''null'' \<noteq> []"
  by (simp add: js_def)

lemma mount_null: "mount [KEY_HISTORY \<mapsto> js ''null''] = Untyped JNull"
  using null_truthy by (simp add: mount_def loadRegistry_def truthy_def parseJSON_null asHistoryList_def)

lemma historyList_initSession: "historyList (initSession w) = historyList w"
  by (simp add: initSession_def createSession_begin_def fetchHistory_begin_def fetch_def
      split: option.splits)

lemma mount_absent:
  "store KEY_HISTORY = None \<or> store KEY_HISTORY = Some [] \<Longrightarrow>
   mount store = Mounted (initSession ((initial_world store)\<lparr>historyList := []\<rparr>))"
  by (auto simp: mount_def loadRegistry_def truthy_def parseJSON_empty_array asHistoryList_def)

lemma mount_stringified:
  "store KEY_HISTORY = Some (stringifyList hs) \<Longrightarrow>
   mount store = Mounted (initSession ((initial_world store)\<lparr>historyList := hs\<rparr>))"
  by (simp add: mount_def loadRegistry_def stringifyList_truthy parseJSON_stringifyList
      asHistoryList_items)

lemma mount_malformed:
  "store KEY_HISTORY = Some s \<Longrightarrow> s \<noteq> [] \<Longrightarrow> parseJSON s = None \<Longrightarrow>
   loadRegistry store = Inl SyntaxError \<and> mount store = Uncaught SyntaxError"
  by (simp add: mount_def loadRegistry_def truthy_def)

text \<open>
  What the mount effect does with a text it can parse. Without a stored list, or with the
  empty string stored, it sets the empty list. With a list that the component stored
  itself, that is \<^verbatim>\<open>JSON.stringify\<close> of its session list, it sets exactly that list.
  In both cases it goes on to start the session.
\<close>

lemma registry_read_back:
  "(store KEY_HISTORY = None \<or> store KEY_HISTORY = Some [] \<longrightarrow>
      mount store = Mounted (initSession ((initial_world store)\<lparr>historyList := []\<rparr>)) \<and>
      historyList (initSession ((initial_world store)\<lparr>historyList := []\<rparr>)) = []) \<and>
   (store KEY_HISTORY = Some (stringifyList hs) \<longrightarrow>
      mount store = Mounted (initSession ((initial_world store)\<lparr>historyList := hs\<rparr>)) \<and>
      historyList (initSession ((initial_world store)\<lparr>historyList := hs\<rparr>)) = hs)"
  using mount_absent [of store] mount_stringified [of store hs]
  by (simp add: historyList_initSession)

lemma registry_read_back_example:
  "mount Map.empty = Mounted (initSession ((initial_world Map.empty)\<lparr>historyList := []\<rparr>)) \<and>
   mount [KEY_HISTORY \<mapsto> stringifyList example_registry] =
     Mounted (initSession ((initial_world [KEY_HISTORY \<mapsto> stringifyList example_registry])
       \<lparr>historyList := example_registry\<rparr>))"
  using registry_read_back [of Map.empty]
    registry_read_back [of "[KEY_HISTORY \<mapsto> stringifyList example_registry]" example_registry]
  by simp

text \<open>
  A stored list need not be laid out as the component writes it: an item that names
  \<^verbatim>\<open>date\<close> before \<^verbatim>\<open>id\<close>, holds a further property and gives \<^verbatim>\<open>id\<close> twice is read
  with the last \<^verbatim>\<open>id\<close>.
\<close>

lemma parseJSON_other_layout:
  "map_option asHistoryList (parseJSON other_layout_text) =
     Some (Some [\<lparr>id' = js ''abc'', date = js ''d''\<rparr>])"
  by code_simp

lemma other_layout_truthy: "other_layout_text \<noteq> []"
  by (simp add: other_layout_text_def js_def)

lemma mount_other_layout:
  "mount [KEY_HISTORY \<mapsto> other_layout_text] =
     Mounted (initSession ((initial_world [KEY_HISTORY \<mapsto> other_layout_text])
       \<lparr>historyList := [\<lparr>id' = js ''abc'', date = js ''d''\<rparr>]\<rparr>))"
proof -
  from parseJSON_other_layout obtain v where
    v: "parseJSON other_layout_text = Some v" and
    h: "asHistoryList v = Some [\<lparr>id' = js ''abc'', date = js ''d''\<rparr>]"
    by auto
  then show ?thesis
    using other_layout_truthy by (simp add: mount_def loadRegistry_def truthy_def)
qed

text \<open>
  C3. The specification asks that a stored text that cannot be parsed be taken for the
  empty list, and that loading never fail. The code does not do so. With the truncated
  text \<^verbatim>\<open>[{\<close> under \<^verbatim>\<open>chat_history_list\<close>, \<^verbatim>\<open>JSON.parse\<close> throws; the call stands
  before the \<^verbatim>\<open>try\<close> of the effect, so nothing catches the \<^verbatim>\<open>SyntaxError\<close> and the
  effect ends there: the list is not set to the empty list and no session is started.
\<close>

theorem malformed_registry_throws:
  "parseJSON (js ''[{'') = None \<and>
   loadRegistry [KEY_HISTORY \<mapsto> js ''[{''] = Inl SyntaxError \<and>
   mount [KEY_HISTORY \<mapsto> js ''[{''] = Uncaught SyntaxError \<and>
   mount [KEY_HISTORY \<mapsto> js ''[{''] \<noteq>
     Mounted (initSession ((initial_world [KEY_HISTORY \<mapsto> js ''[{''])\<lparr>historyList := []\<rparr>))"
  using mount_malformed [of "[KEY_HISTORY \<mapsto> js ''[{'']" "js ''[{''"]
    parseJSON_truncated truncated_truthy
  by simp

end
